theory Spec2Isabelle
  imports Main "HOL-Library.Word" "HOL-Library.AList"
begin

unbundle bit_operations_syntax

section \<open>Data model\<close>

text \<open>
  A file is the list of its bytes, the file system a partial map from paths to
  files. A path the map does not know stands for any path that \<open>open\<close> refuses
  (missing, a directory, unreadable).
\<close>

type_synonym byte = "8 word"
type_synonym fs = "string \<rightharpoonup> byte list"

text \<open>
  The exceptions of the program. \<open>SecretError path message\<close> and
  \<open>SecretKeyError message\<close> are the script's own classes; the others are the
  built-in exceptions its statements can raise.
\<close>

datatype error =
    SecretKeyError string
  | SecretError string string
  | OSError
  | IndexError
  | ValueError
  | TypeError
  | KeyError string

text \<open>\<open>SecretError.__init__\<close>: the text of the exception is \<open>path: message\<close>.\<close>

fun error_text :: "error \<Rightarrow> string" where
  "error_text (SecretError p m) = p @ '': '' @ m"
| "error_text (SecretKeyError m) = m"
| "error_text (KeyError k) = k"
| "error_text _ = []"

section \<open>Detection of an encrypted file\<close>

text \<open>\<open>header[i]\<close> on a bytes object, for the non-negative indices the code uses.\<close>

definition byte_at :: "byte list \<Rightarrow> nat \<Rightarrow> error + byte" where
  "byte_at header i = (if i < length header then Inr (header ! i) else Inl IndexError)"

text \<open>The body offset chosen from the length type of an old-format packet.\<close>

definition body_offset :: "byte \<Rightarrow> nat" where
  "body_offset length_type =
     (if length_type = 0 then 2
      else if length_type = 1 then 3
      else if length_type = 2 then 5
      else 1)"

text \<open>The body of the \<open>try\<close> block of \<open>Secret._detect_encryption\<close>.\<close>

definition check_header :: "byte list \<Rightarrow> error + bool" where
  "check_header header =
     (case byte_at header 0 of
        Inl e \<Rightarrow> Inl e
      | Inr b0 \<Rightarrow>
          if b0 AND 0x80 = 0 then Inr False
          else if b0 AND 0x40 = 0 then
            (if drop_bit 2 (b0 AND 0x3C) \<noteq> 1 then Inr False
             else
               (case byte_at header (body_offset (b0 AND 0x3)) of
                  Inl e \<Rightarrow> Inl e
                | Inr v \<Rightarrow> if v \<noteq> 3 then Inr False else Inr True))
          else
            (if b0 AND 0x3F \<noteq> 1 then Inr False else Inr True))"

text \<open>
  \<open>Secret._detect_encryption\<close>: the file is opened outside the \<open>try\<close>, the first 32
  bytes are read, and only an \<open>IndexError\<close> of the header checks is turned into
  \<open>False\<close>.
\<close>

definition detect_encryption :: "fs \<Rightarrow> string \<Rightarrow> error + bool" where
  "detect_encryption fls p =
     (case fls p of
        None \<Rightarrow> Inl OSError
      | Some content \<Rightarrow>
          (case check_header (take 32 content) of
             Inl IndexError \<Rightarrow> Inr False
           | Inl e \<Rightarrow> Inl e
           | Inr b \<Rightarrow> Inr b))"

section \<open>The secret and its cached flag\<close>

text \<open>
  The fields of a \<open>Secret\<close> object: \<open>cached\<close> is \<open>_encrypted\<close>, with \<open>None\<close> for
  "not yet detected". The state an operation works on is the object together
  with the file system; an operation returns what it raised or returned, and the
  state it left behind.
\<close>

record secret =
  path :: string
  keys :: "string set"
  cached :: "bool option"

record state =
  obj :: secret
  files :: fs

definition Secret_init :: "string \<Rightarrow> string set \<Rightarrow> secret" where
  "Secret_init p ks = \<lparr>path = p, keys = ks, cached = None\<rparr>"

text \<open>The property \<open>Secret.encrypted\<close>.\<close>

definition encrypted :: "state \<Rightarrow> (error + bool) \<times> state" where
  "encrypted s =
     (case cached (obj s) of
        Some b \<Rightarrow> (Inr b, s)
      | None \<Rightarrow>
          (case detect_encryption (files s) (path (obj s)) of
             Inl e \<Rightarrow> (Inl e, s)
           | Inr b \<Rightarrow> (Inr b, s\<lparr>obj := (obj s)\<lparr>cached := Some b\<rparr>\<rparr>)))"

section \<open>The crypto engine and the operating system\<close>

text \<open>
  The engine (the \<open>gpg\<close> object of the \<open>gnupg\<close> library) and the temporary-file
  service of the operating system are outside the repository. They are taken as
  a parameter: a record of functions, one for each call the script makes.
  \<^item> \<open>encrypt_file data recipients\<close> and \<open>decrypt_file data\<close> give the result
    object of the call: its \<open>ok\<close> flag, its \<open>status\<close> text and the bytes the engine
    left in the output file;
  \<^item> \<open>list_packets_status data\<close> is the sequence of status lines (keyword, value)
    the engine reports for \<open>--list-packets\<close>;
  \<^item> \<open>list_keys ids\<close> is the list of key entries of \<open>gpg.list_keys(keys=ids)\<close>;
  \<^item> \<open>mktemp files prefix\<close> is the name \<open>NamedTemporaryFile\<close> picks, in the
    directory of \<open>prefix\<close> and starting with it.
  Permission bits are not part of the model.
\<close>

record crypt =
  ok :: bool
  status :: string
  written :: "byte list"

record gpg_key =
  fingerprint :: string
  key_ids :: "string list"

record env =
  encrypt_file :: "byte list \<Rightarrow> string set \<Rightarrow> crypt"
  decrypt_file :: "byte list \<Rightarrow> crypt"
  list_packets_status :: "byte list \<Rightarrow> (string \<times> string) list"
  list_keys :: "string list \<Rightarrow> gpg_key list"
  mktemp :: "fs \<Rightarrow> string \<Rightarrow> string"

text \<open>\<open>os.replace\<close> and \<open>os.remove\<close> on the file map.\<close>

definition os_replace :: "string \<Rightarrow> string \<Rightarrow> fs \<Rightarrow> fs" where
  "os_replace src dst fls = (fls(dst := fls src))(src := None)"

definition os_remove :: "string \<Rightarrow> fs \<Rightarrow> fs" where
  "os_remove p fls = fls(p := None)"

section \<open>Packet listing\<close>

text \<open>
  \<open>str.split()\<close> without arguments: the words between runs of white space. The
  white space of Python among the 256 characters: tab to carriage return, the
  four separators 28 to 31, the blank, and the code points 133 and 160.
\<close>

definition is_space :: "char \<Rightarrow> bool" where
  "is_space c = (of_char c \<in> {9, 10, 11, 12, 13, 28, 29, 30, 31, 32, 133, 160 :: nat})"

fun split_from :: "string \<Rightarrow> string \<Rightarrow> string list" where
  "split_from cur [] = (if cur = [] then [] else [cur])"
| "split_from cur (c # cs) =
     (if is_space c then (if cur = [] then split_from [] cs else cur # split_from [] cs)
      else split_from (cur @ [c]) cs)"

definition str_split :: "string \<Rightarrow> string list" where
  "str_split v = split_from [] v"

record ListPackets =
  need_passphrase :: "bool option"
  need_passphrase_sym :: "bool option"
  userid_hint :: "string list option"
  encrypted_to :: "string list"

definition ListPackets_init :: ListPackets where
  "ListPackets_init =
     \<lparr>need_passphrase = None, need_passphrase_sym = None, userid_hint = None, encrypted_to = []\<rparr>"

text \<open>
  \<open>ListPackets.handle_status\<close>. The unpacking \<open>key, _, _ = value.split()\<close> raises
  \<open>ValueError\<close> unless the value has exactly three words.
\<close>

definition handle_status :: "ListPackets \<Rightarrow> string \<Rightarrow> string \<Rightarrow> error + ListPackets" where
  "handle_status lp key val =
     (if key = ''ENC_TO'' then
        (case str_split val of
           [k, _, _] \<Rightarrow> Inr (lp\<lparr>encrypted_to := encrypted_to lp @ [k]\<rparr>)
         | _ \<Rightarrow> Inl ValueError)
      else if key = ''NEED_PASSPHRASE'' \<or> key = ''MISSING_PASSPHRASE'' then
        Inr (lp\<lparr>need_passphrase := Some True\<rparr>)
      else if key = ''NEED_PASSPHRASE_SYM'' then
        Inr (lp\<lparr>need_passphrase_sym := Some True\<rparr>)
      else if key = ''USERID_HINT'' then
        Inr (lp\<lparr>userid_hint := Some (str_split val)\<rparr>)
      else Inr lp)"

text \<open>
  The engine hands the status lines to \<open>handle_status\<close> one by one, in a reader
  thread of its own. An exception of \<open>handle_status\<close> ends that thread and does
  not reach the caller: the lines after it are not handled, and the object stays
  as the lines before it left it.
\<close>

fun read_response :: "ListPackets \<Rightarrow> (string \<times> string) list \<Rightarrow> ListPackets" where
  "read_response lp [] = lp"
| "read_response lp ((key, val) # rest) =
     (case handle_status lp key val of
        Inl e \<Rightarrow> lp
      | Inr lp' \<Rightarrow> read_response lp' rest)"

text \<open>
  \<open>Secret._list_packets\<close>: the file is opened and the engine reads the status
  lines of the listing into a fresh \<open>ListPackets\<close>.
\<close>

definition list_packets :: "env \<Rightarrow> state \<Rightarrow> error + ListPackets" where
  "list_packets en s =
     (case files s (path (obj s)) of
        None \<Rightarrow> Inl OSError
      | Some data \<Rightarrow> Inr (read_response ListPackets_init (list_packets_status en data)))"

section \<open>Key Directory\<close>

text \<open>
  \<open>Secret._get_master_keys\<close>: the set of the \<open>fingerprint\<close> fields of the entries
  the engine lists. The function has no check and no \<open>raise\<close> of its own.
\<close>

definition get_master_keys :: "env \<Rightarrow> string list \<Rightarrow> string set" where
  "get_master_keys en ids = set (map fingerprint (list_keys en ids))"

section \<open>Encrypt, decrypt, reconcile\<close>

text \<open>\<open>Secret.encrypt\<close>.\<close>

definition encrypt :: "env \<Rightarrow> state \<Rightarrow> (error + unit) \<times> state" where
  "encrypt en s =
     (case encrypted s of (r, s1) \<Rightarrow>
        (case r of
           Inl e \<Rightarrow> (Inl e, s1)
         | Inr b \<Rightarrow>
             if b then (Inr (), s1)
             else
               (case files s1 (path (obj s1)) of
                  None \<Rightarrow> (Inl OSError, s1)
                | Some data \<Rightarrow>
                    let enc_temp = mktemp en (files s1) (path (obj s1));
                        created = (files s1)(enc_temp \<mapsto> []);
                        result = encrypt_file en data (keys (obj s1));
                        filled = created(enc_temp \<mapsto> written result)
                    in if ok result then
                         (Inr (), \<lparr>obj = (obj s1)\<lparr>cached := Some True\<rparr>,
                                   files = os_replace enc_temp (path (obj s1)) filled\<rparr>)
                       else
                         (Inl (SecretError (path (obj s1)) (status result)),
                          s1\<lparr>files := os_remove enc_temp filled\<rparr>))))"

text \<open>\<open>Secret.decrypt\<close>.\<close>

definition decrypt :: "env \<Rightarrow> state \<Rightarrow> (error + unit) \<times> state" where
  "decrypt en s =
     (case files s (path (obj s)) of
        None \<Rightarrow> (Inl OSError, s)
      | Some data \<Rightarrow>
          let dec_temp = mktemp en (files s) (path (obj s));
              created = (files s)(dec_temp \<mapsto> []);
              result = decrypt_file en data;
              filled = created(dec_temp \<mapsto> written result)
          in if ok result then
               (Inr (), \<lparr>obj = (obj s)\<lparr>cached := Some False\<rparr>,
                         files = os_replace dec_temp (path (obj s)) filled\<rparr>)
             else
               (Inl (SecretError (path (obj s)) (status result)),
                s\<lparr>files := os_remove dec_temp filled\<rparr>))"

text \<open>
  The file system after a successful \<open>encrypt\<close> or \<open>decrypt\<close> of the file at
  \<open>p\<close>: the engine has written \<open>out\<close> to the temporary file, and the temporary
  file has been moved to \<open>p\<close>.
\<close>

definition replace_via_temp :: "env \<Rightarrow> fs \<Rightarrow> string \<Rightarrow> byte list \<Rightarrow> fs" where
  "replace_via_temp en fls p out =
     os_replace (mktemp en fls p) p (fls(mktemp en fls p \<mapsto> out))"

text \<open>
  The first half of \<open>Secret.update_keys\<close>: the recipients the file is encrypted
  to now, the empty set for a file that is not encrypted.
\<close>

definition current_keys :: "env \<Rightarrow> state \<Rightarrow> (error + string set) \<times> state" where
  "current_keys en s =
     (case encrypted s of (r, s1) \<Rightarrow>
        (case r of
           Inl e \<Rightarrow> (Inl e, s1)
         | Inr b \<Rightarrow>
             if b then
               (case list_packets en s1 of
                  Inl e \<Rightarrow> (Inl e, s1)
                | Inr packets \<Rightarrow> (Inr (get_master_keys en (encrypted_to packets)), s1))
             else (Inr {}, s1)))"

text \<open>\<open>Secret.update_keys\<close>.\<close>

definition update_keys :: "env \<Rightarrow> state \<Rightarrow> (error + unit) \<times> state" where
  "update_keys en s =
     (case current_keys en s of (r, s1) \<Rightarrow>
        (case r of
           Inl e \<Rightarrow> (Inl e, s1)
         | Inr cur \<Rightarrow>
             if cur \<noteq> keys (obj s1) then
               (case encrypted s1 of (r2, s2) \<Rightarrow>
                  (case r2 of
                     Inl e \<Rightarrow> (Inl e, s2)
                   | Inr b \<Rightarrow>
                       if b then
                         (case decrypt en s2 of (r3, s3) \<Rightarrow>
                            (case r3 of
                               Inl e \<Rightarrow> (Inl e, s3)
                             | Inr _ \<Rightarrow> encrypt en s3))
                       else encrypt en s2))
             else (Inr (), s1)))"

section \<open>Alias Table\<close>

text \<open>
  A value of the \<open>keys\<close> configuration is one key id or a list of key ids. The
  configuration is a dict: the list of its items in insertion order, where no
  alias occurs twice. The table built from it is a dict as well.
\<close>

datatype key_config = Str string | Strs "string list"

type_synonym alias_table = "(string \<times> string set) list"

text \<open>\<open>wrap_string_list\<close>\<close>

fun wrap_string_list :: "key_config \<Rightarrow> string list" where
  "wrap_string_list (Str s) = [s]"
| "wrap_string_list (Strs xs) = xs"

text \<open>
  \<open>set.union(*args)\<close>: the union of the first set with the others; without any
  argument the call raises \<open>TypeError\<close>.
\<close>

fun set_union :: "'a set list \<Rightarrow> error + 'a set" where
  "set_union [] = Inl TypeError"
| "set_union (v # vs) = Inr (fold (\<lambda>x acc. acc \<union> x) vs v)"

text \<open>
  \<open>KeyManager.__init__\<close>: the comprehension over the items, then the assignment
  to the key \<open>all\<close>, which replaces the value of an entry of that name and
  appends a new entry otherwise.
\<close>

definition KeyManager_init :: "(string \<times> key_config) list \<Rightarrow> error + alias_table" where
  "KeyManager_init config =
     (let aliases = map (\<lambda>(alias, kc). (alias, set (wrap_string_list kc))) config
      in case set_union (map snd aliases) of
           Inl e \<Rightarrow> Inl e
         | Inr u \<Rightarrow> Inr (AList.update ''all'' u aliases))"

text \<open>\<open>KeyManager.lookup_alias\<close>\<close>

definition lookup_alias :: "alias_table \<Rightarrow> string \<Rightarrow> error + string set" where
  "lookup_alias aliases alias =
     (case map_of aliases alias of
        None \<Rightarrow> Inl (SecretKeyError (''unknown key alias: '' @ alias))
      | Some ks \<Rightarrow> Inr ks)"

text \<open>The union of the sets of every entry of a table that is not named \<open>all\<close>.\<close>

definition others_union :: "alias_table \<Rightarrow> string set" where
  "others_union aliases = \<Union> (set (map snd (filter (\<lambda>e. fst e \<noteq> ''all'') aliases)))"

text \<open>The union of the sets of key ids that the items of a configuration declare.\<close>

definition configured_ids :: "(string \<times> key_config) list \<Rightarrow> string set" where
  "configured_ids config = \<Union> (set (map (\<lambda>e. set (wrap_string_list (snd e))) config))"

section \<open>Key Generator\<close>

text \<open>
  The \<open>generate\<close> section of the configuration, each of its three keys present
  or not, and the object \<open>KeyGenerator.__init__\<close> builds from it.
\<close>

record gen_config =
  keyType :: "string option"
  keyLength :: "int option"
  domain_entry :: "string option"

record KeyGenerator =
  key_type :: string
  key_length :: int
  domain :: string

definition KeyGenerator_init :: "gen_config \<Rightarrow> error + KeyGenerator" where
  "KeyGenerator_init config =
     (case domain_entry config of
        None \<Rightarrow> Inl (KeyError ''domain'')
      | Some d \<Rightarrow>
          Inr \<lparr>key_type = (case keyType config of None \<Rightarrow> ''RSA'' | Some t \<Rightarrow> t),
               key_length = (case keyLength config of None \<Rightarrow> 4096 | Some n \<Rightarrow> n),
               domain = d\<rparr>)"

text \<open>
  \<open>str.lower()\<close>. A character is a code point below 256. The capital letters
  \<open>A\<close> to \<open>Z\<close> (65 to 90) and the capital letters of the upper half (192 to 222,
  without the multiplication sign 215) move to the small letters 32 places
  further on; every other code point has no other lower case and stays.
\<close>

definition char_lower :: "char \<Rightarrow> char" where
  "char_lower c =
     (let n = (of_char c :: nat)
      in if (65 \<le> n \<and> n \<le> 90) \<or> (192 \<le> n \<and> n \<le> 222 \<and> n \<noteq> 215)
         then char_of (n + 32) else c)"

definition str_lower :: "string \<Rightarrow> string" where
  "str_lower s = map char_lower s"

text \<open>The keyword arguments \<open>generate\<close> passes to \<open>gpg.gen_key_input\<close>.\<close>

record gen_key_args =
  arg_key_type :: string
  arg_key_length :: int
  name_real :: string
  name_email :: string
  passphrase :: string
  expire_date :: int

definition gen_key_args_of :: "KeyGenerator \<Rightarrow> string \<Rightarrow> gen_key_args" where
  "gen_key_args_of kg name =
     \<lparr>arg_key_type = key_type kg,
      arg_key_length = key_length kg,
      name_real = name,
      name_email = str_lower name @ ''@'' @ domain kg,
      passphrase = [],
      expire_date = 0\<rparr>"

text \<open>
  The key generation calls of the engine, over a keyring \<open>'k\<close> that they change:
  \<open>gen_key_input\<close> renders the arguments as the text of a request, \<open>gen_key\<close>
  returns the fingerprint of the new key (\<open>None\<close> when no key was created) and
  the new keyring, \<open>export_keys\<close> the text of the secret key, \<open>delete_keys\<close> the
  keyring without the secret key.
\<close>

record 'k keygen_env =
  gen_key_input :: "gen_key_args \<Rightarrow> string"
  gen_key :: "'k \<Rightarrow> string \<Rightarrow> string option \<times> 'k"
  export_keys :: "'k \<Rightarrow> string \<Rightarrow> string"
  delete_keys :: "'k \<Rightarrow> string \<Rightarrow> 'k"

text \<open>The request text \<open>key_input\<close> of \<open>KeyGenerator.generate\<close>.\<close>

definition key_input :: "'k keygen_env \<Rightarrow> KeyGenerator \<Rightarrow> string \<Rightarrow> string" where
  "key_input ge kg name =
     ''%no-protection'' @ [CHR 0x0A] @ gen_key_input ge (gen_key_args_of kg name)"

text \<open>
  \<open>KeyGenerator.generate\<close>. A key object is false when it has no fingerprint, and
  its text is then empty. The key file is written in text mode, one byte for each
  character.
\<close>

definition generate ::
  "'k keygen_env \<Rightarrow> KeyGenerator \<Rightarrow> string \<Rightarrow> string option \<Rightarrow> fs \<times> 'k \<Rightarrow> (error + string) \<times> fs \<times> 'k"
where
  "generate ge kg name key_path w =
     (let key_path' = (case key_path of
                         None \<Rightarrow> name @ ''.asc''
                       | Some p \<Rightarrow> if p = [] then name @ ''.asc'' else p)
      in case gen_key ge (snd w) (key_input ge kg name) of (key, ring) \<Rightarrow>
           (case key of
              None \<Rightarrow> (Inl (SecretKeyError ''Failed to generate key: ''), fst w, ring)
            | Some fpr \<Rightarrow>
                if fpr = [] then (Inl (SecretKeyError ''Failed to generate key: ''), fst w, ring)
                else
                  let key_data = export_keys ge ring fpr
                  in (Inr fpr, (fst w)(key_path' \<mapsto> map of_char key_data), delete_keys ge ring fpr)))"

section \<open>An engine over a keyring\<close>

text \<open>
  A small engine to run the operations on. Its keyring is a list of keys, each
  with the fingerprint of the master key and the ids that select it. Listing
  keys returns the keys some id selects, in the order of the keyring, and the
  whole keyring for no id at all; an id that selects nothing is passed over.
  The engine encrypts to every key of its keyring: encryption needs at least
  one recipient, every recipient must be an id of the keyring, and every key
  must be selected by a recipient. The ciphertext is an old-format packet header
  of tag 1 and version 3 before the data, and its packet listing names the first
  id of every key. Decryption works where the secret key is at hand.
\<close>

definition key_matches :: "string \<Rightarrow> gpg_key \<Rightarrow> bool" where
  "key_matches i k = (i = fingerprint k \<or> i \<in> set (key_ids k))"

definition keyring_list_keys :: "gpg_key list \<Rightarrow> string list \<Rightarrow> gpg_key list" where
  "keyring_list_keys ring ids =
     (if ids = [] then ring else filter (\<lambda>k. list_ex (\<lambda>i. key_matches i k) ids) ring)"

definition ring_ids :: "gpg_key list \<Rightarrow> string set" where
  "ring_ids ring = set (concat (map (\<lambda>k. fingerprint k # key_ids k) ring))"

definition selects_all :: "string set \<Rightarrow> gpg_key list \<Rightarrow> bool" where
  "selects_all recipients ring =
     list_all (\<lambda>k. recipients \<inter> set (fingerprint k # key_ids k) \<noteq> {}) ring"

definition first_id :: "gpg_key \<Rightarrow> string" where
  "first_id k = (case key_ids k of [] \<Rightarrow> fingerprint k | i # _ \<Rightarrow> i)"

definition packet_header :: "byte list" where
  "packet_header = [0x84, 0x0C, 0x03]"

definition keyring_env :: "gpg_key list \<Rightarrow> bool \<Rightarrow> env" where
  "keyring_env ring have_secret =
     \<lparr>encrypt_file = (\<lambda>data recipients.
        if recipients \<noteq> {} \<and> recipients \<subseteq> ring_ids ring \<and> selects_all recipients ring
        then \<lparr>ok = True, status = ''encryption ok'', written = packet_header @ data\<rparr>
        else \<lparr>ok = False, status = ''invalid recipient'', written = []\<rparr>),
      decrypt_file = (\<lambda>data.
        if have_secret \<and> take 3 data = packet_header
        then \<lparr>ok = True, status = ''decryption ok'', written = drop 3 data\<rparr>
        else \<lparr>ok = False, status = ''decryption failed'', written = []\<rparr>),
      list_packets_status = (\<lambda>data.
        if take 3 data = packet_header
        then map (\<lambda>k. (''ENC_TO'', first_id k @ '' 1 0'')) ring
        else [(''NODATA'', ''1'')]),
      list_keys = keyring_list_keys ring,
      mktemp = (\<lambda>fls prefix. prefix @ ''.tmp'')\<rparr>"

definition demo_ring :: "gpg_key list" where
  "demo_ring = [\<lparr>fingerprint = ''F1F1F1F1'', key_ids = [''3C4D'', ''1A2B'']\<rparr>]"

text \<open>A fresh secret for the two-byte plaintext file \<open>db.env\<close>, with the given keys.\<close>

definition demo_state :: "string set \<Rightarrow> state" where
  "demo_state ks = \<lparr>obj = Secret_init ''db.env'' ks, files = [''db.env'' \<mapsto> [0x68, 0x69]]\<rparr>"

text \<open>A key generation engine that never creates a key.\<close>

definition failing_keygen :: "unit keygen_env" where
  "failing_keygen =
     \<lparr>gen_key_input = (\<lambda>a. ''Name-Email: '' @ name_email a),
      gen_key = (\<lambda>ring request. (None, ring)),
      export_keys = (\<lambda>ring fpr. []),
      delete_keys = (\<lambda>ring fpr. ring)\<rparr>"

section \<open>Properties of the detection\<close>

lemma check_header_error: "check_header h = Inl e \<Longrightarrow> e = IndexError"
  by (auto simp: check_header_def byte_at_def split: sum.splits if_splits)

lemma detect_encryption_open:
  "fls p = Some content \<Longrightarrow>
   detect_encryption fls p =
     (case check_header (take 32 content) of Inl e \<Rightarrow> Inr False | Inr b \<Rightarrow> Inr b)"
  by (auto simp: detect_encryption_def split: sum.splits error.splits dest: check_header_error)











text \<open>
  Claim C10. Detection on a path that cannot be opened raises the error of
  \<open>open\<close>, and so does the \<open>encrypted\<close> property on a secret whose flag is not
  cached yet, which leaves the secret as it was. On a file that was opened, an
  \<open>IndexError\<close> of the header checks is turned into the result not encrypted,
  and no error of \<open>open\<close> comes out.
\<close>

theorem unopenable_path_propagates:
  "(fls p = None \<longrightarrow> detect_encryption fls p = Inl OSError)
   \<and> (files s (path (obj s)) = None \<and> cached (obj s) = None \<longrightarrow>
        encrypted s = (Inl OSError, s))
   \<and> (fls p = Some content \<and> check_header (take 32 content) = Inl IndexError \<longrightarrow>
        detect_encryption fls p = Inr False)
   \<and> (fls p = Some content \<longrightarrow> detect_encryption fls p \<noteq> Inl OSError)"
proof -
  have "detect_encryption fls p \<noteq> Inl OSError" if "fls p = Some content"
    using detect_encryption_open [of fls p content] that
    by (cases "check_header (take 32 content)") simp_all
  then show ?thesis
    by (simp add: detect_encryption_def encrypted_def)
qed

theorem unopenable_path_propagates_witness:
  "files (demo_state {}\<lparr>files := Map.empty\<rparr>) (path (obj (demo_state {}\<lparr>files := Map.empty\<rparr>))) = None
   \<and> cached (obj (demo_state {}\<lparr>files := Map.empty\<rparr>)) = None
   \<and> detect_encryption Map.empty ''db.env'' = Inl OSError
   \<and> encrypted (demo_state {}\<lparr>files := Map.empty\<rparr>)
        = (Inl OSError, demo_state {}\<lparr>files := Map.empty\<rparr>)
   \<and> check_header (take 32 [0x85]) = Inl IndexError
   \<and> detect_encryption [''db.env'' \<mapsto> [0x85]] ''db.env'' = Inr False"
proof -
  have c: "check_header (take 32 [0x85]) = Inl IndexError"
    by (simp add: check_header_def byte_at_def body_offset_def)
  from unopenable_path_propagates
         [of Map.empty "''db.env''" "demo_state {}\<lparr>files := Map.empty\<rparr>" "[]"]
       unopenable_path_propagates
         [of "[''db.env'' \<mapsto> [0x85]]" "''db.env''" "demo_state {}" "[0x85]"] c
  show ?thesis by (simp add: demo_state_def Secret_init_def)
qed

section \<open>Properties of the Alias Table\<close>

lemma fold_union: "fold (\<lambda>x acc. acc \<union> x) vs v = v \<union> \<Union> (set vs)"
  by (induction vs arbitrary: v) auto

lemma set_union_nonempty: "vs \<noteq> [] \<Longrightarrow> set_union vs = Inr (\<Union> (set vs))"
  by (cases vs) (auto simp: fold_union)

lemma comprehension_values:
  "\<Union> (set (map snd (map (\<lambda>(alias, kc). (alias, set (wrap_string_list kc))) config)))
     = configured_ids config"
  by (auto simp: configured_ids_def split: prod.splits)

lemma KeyManager_init_empty: "KeyManager_init [] = Inl TypeError"
  by (simp add: KeyManager_init_def)

lemma KeyManager_init_nonempty:
  assumes "config \<noteq> []"
  shows "KeyManager_init config =
           Inr (AList.update ''all'' (configured_ids config)
                  (map (\<lambda>(alias, kc). (alias, set (wrap_string_list kc))) config))"
proof -
  have "map snd (map (\<lambda>(alias, kc). (alias, set (wrap_string_list kc))) config) \<noteq> []"
    using assms by simp
  from set_union_nonempty [OF this] show ?thesis
    by (simp only: KeyManager_init_def Let_def comprehension_values sum.case)
qed

lemma KeyManager_init_cases:
  "KeyManager_init config = Inr t \<Longrightarrow>
     config \<noteq> [] \<and> t = AList.update ''all'' (configured_ids config)
                  (map (\<lambda>(alias, kc). (alias, set (wrap_string_list kc))) config)"
  using KeyManager_init_nonempty [of config] KeyManager_init_empty by (cases "config = []") auto

lemma filter_update_other:
  "filter (\<lambda>e. fst e \<noteq> k) (AList.update k v al) = filter (\<lambda>e. fst e \<noteq> k) al"
  by (induction al) auto

lemma others_union_update: "others_union (AList.update ''all'' u al) = others_union al"
  by (simp add: others_union_def filter_update_other)

lemma others_union_comprehension:
  "others_union (map (\<lambda>(alias, kc). (alias, set (wrap_string_list kc))) config)
     = configured_ids (filter (\<lambda>e. fst e \<noteq> ''all'') config)"
  by (induction config) (auto simp: others_union_def configured_ids_def)

lemma filter_no_all: "''all'' \<notin> fst ` set config \<Longrightarrow> filter (\<lambda>e. fst e \<noteq> ''all'') config = config"
  by (induction config) auto

lemma configured_ids_filter: "configured_ids (filter P config) \<subseteq> configured_ids config"
  by (auto simp: configured_ids_def)

lemma insert_is_singleton: "A \<noteq> {} \<Longrightarrow> (insert k A = {k}) = (A = {k})"
  by auto

lemma comprehension_names:
  "fst ` set (map (\<lambda>(alias, kc). (alias, set (wrap_string_list kc))) config) = fst ` set config"
  by (induction config) auto

text \<open>
  Claim C1, as amended. In a table that was built, the entry \<open>all\<close> is the union
  of the sets of every item of the source configuration, so it contains the
  union of every other entry; when the configuration declares no alias named
  \<open>all\<close>, it is equal to the union of every other entry.
\<close>

theorem all_is_union_of_configured:
  assumes "KeyManager_init config = Inr t"
  shows "lookup_alias t ''all'' = Inr (configured_ids config)
       \<and> others_union t \<subseteq> configured_ids config
       \<and> (''all'' \<notin> fst ` set config \<longrightarrow> lookup_alias t ''all'' = Inr (others_union t))"
proof -
  let ?al = "map (\<lambda>(alias, kc). (alias, set (wrap_string_list kc))) config"
  from KeyManager_init_cases [OF assms]
  have t: "t = AList.update ''all'' (configured_ids config) ?al" by simp
  have look: "lookup_alias t ''all'' = Inr (configured_ids config)"
    by (simp add: t lookup_alias_def update_conv')
  have others: "others_union t = configured_ids (filter (\<lambda>e. fst e \<noteq> ''all'') config)"
    by (simp only: t others_union_update others_union_comprehension)
  have sub: "others_union t \<subseteq> configured_ids config"
    unfolding others by (rule configured_ids_filter)
  have eq: "lookup_alias t ''all'' = Inr (others_union t)" if "''all'' \<notin> fst ` set config"
    using that by (simp add: look others filter_no_all)
  from look sub eq show ?thesis by blast
qed

theorem all_is_union_of_configured_witness:
  "KeyManager_init [(''ops'', Strs [''KEY_A'', ''KEY_B'']), (''master'', Str ''KEY_M'')]
     = Inr [(''ops'', {''KEY_A'', ''KEY_B''}), (''master'', {''KEY_M''}),
            (''all'', {''KEY_A'', ''KEY_B'', ''KEY_M''})]
   \<and> lookup_alias [(''ops'', {''KEY_A'', ''KEY_B''}), (''master'', {''KEY_M''}),
            (''all'', {''KEY_A'', ''KEY_B'', ''KEY_M''})] ''all''
       = Inr (others_union [(''ops'', {''KEY_A'', ''KEY_B''}), (''master'', {''KEY_M''}),
            (''all'', {''KEY_A'', ''KEY_B'', ''KEY_M''})])"
proof -
  have k: "KeyManager_init [(''ops'', Strs [''KEY_A'', ''KEY_B'']), (''master'', Str ''KEY_M'')]
     = Inr [(''ops'', {''KEY_A'', ''KEY_B''}), (''master'', {''KEY_M''}),
            (''all'', {''KEY_A'', ''KEY_B'', ''KEY_M''})]"
    by (auto simp: KeyManager_init_def)
  from all_is_union_of_configured [OF k] k show ?thesis by auto
qed

text \<open>
  Claim C1 as stated fails for a configuration that declares \<open>all\<close> itself: the
  declared value is one of the sets that are united, so its key ids stay in the
  entry, which is then larger than the union of the other entries.
\<close>

theorem configured_all_is_merged:
  "KeyManager_init [(''all'', Str ''KEY_X''), (''master'', Str ''KEY_M'')]
     = Inr [(''all'', {''KEY_X'', ''KEY_M''}), (''master'', {''KEY_M''})]
   \<and> lookup_alias [(''all'', {''KEY_X'', ''KEY_M''}), (''master'', {''KEY_M''})] ''all''
       = Inr {''KEY_X'', ''KEY_M''}
   \<and> others_union [(''all'', {''KEY_X'', ''KEY_M''}), (''master'', {''KEY_M''})] = {''KEY_M''}
   \<and> {''KEY_X'', ''KEY_M''} \<noteq> {''KEY_M''}"
  by (auto simp: KeyManager_init_def lookup_alias_def others_union_def)

text \<open>
  Claim C9, as amended. The construction raises exactly for the configuration
  without aliases. A table that was built is never empty: its aliases are those
  of the configuration together with \<open>all\<close>, and \<open>all\<close> is its only alias exactly
  when \<open>all\<close> is the only alias the configuration declares.
\<close>

theorem empty_keys_configuration_raises:
  "(KeyManager_init config = Inl TypeError \<longleftrightarrow> config = [])
   \<and> (\<forall>t. KeyManager_init config = Inr t \<longrightarrow>
          t \<noteq> [] \<and> config \<noteq> [] \<and> fst ` set t = insert ''all'' (fst ` set config)
          \<and> (fst ` set t = {''all''} \<longleftrightarrow> fst ` set config = {''all''}))"
proof -
  have raise: "KeyManager_init config = Inl TypeError \<longleftrightarrow> config = []"
    using KeyManager_init_nonempty [of config] KeyManager_init_empty
    by (cases "config = []") auto
  have made: "t \<noteq> [] \<and> config \<noteq> [] \<and> fst ` set t = insert ''all'' (fst ` set config)
          \<and> (fst ` set t = {''all''} \<longleftrightarrow> fst ` set config = {''all''})"
    if "KeyManager_init config = Inr t" for t
  proof -
    from KeyManager_init_cases [OF that]
    have ne: "config \<noteq> []"
      and t: "t = AList.update ''all'' (configured_ids config)
                 (map (\<lambda>(alias, kc). (alias, set (wrap_string_list kc))) config)"
      by simp_all
    have names: "fst ` set t = insert ''all'' (fst ` set config)"
      by (simp only: t dom_update comprehension_names) simp
    from ne have "fst ` set config \<noteq> {}" by simp
    then have only: "fst ` set t = {''all''} \<longleftrightarrow> fst ` set config = {''all''}"
      unfolding names by (rule insert_is_singleton)
    have "fst ` set t \<noteq> {}" unfolding names by (rule insert_not_empty)
    then have "t \<noteq> []" by auto
    with ne names only show ?thesis by blast
  qed
  from raise made show ?thesis by blast
qed

theorem empty_keys_configuration_raises_witness:
  "KeyManager_init [] = Inl TypeError
   \<and> KeyManager_init [(''master'', Str ''KEY_M'')] = Inr [(''master'', {''KEY_M''}), (''all'', {''KEY_M''})]
   \<and> fst ` set [(''master'', {''KEY_M''}), (''all'', {''KEY_M''})] = {''all'', ''master''}"
proof -
  have k: "KeyManager_init [(''master'', Str ''KEY_M'')] = Inr [(''master'', {''KEY_M''}), (''all'', {''KEY_M''})]"
    by (simp add: KeyManager_init_def)
  from empty_keys_configuration_raises [of "[]"]
    empty_keys_configuration_raises [of "[(''master'', Str ''KEY_M'')]"] k
  show ?thesis by simp
qed

text \<open>
  Claim C9 as stated fails: the configuration whose only alias is named \<open>all\<close>
  gives a table that holds the entry \<open>all\<close> and nothing else.
\<close>

theorem table_with_only_all:
  "KeyManager_init [(''all'', Str ''KEY_X'')] = Inr [(''all'', {''KEY_X''})]
   \<and> map fst [(''all'', {''KEY_X''})] = [''all'']"
  by (simp add: KeyManager_init_def)




section \<open>Properties of the Key Directory\<close>

text \<open>
  Claim C5, as amended. The result is the set of the fingerprints of the keys
  the engine lists, whatever it lists, and there is no error of the function
  itself. Over a keyring these are the fingerprints of the keys that some id
  selects, so an id that selects no key adds nothing to the result.
\<close>

theorem get_master_keys_drops_unmatched:
  "get_master_keys en ids = fingerprint ` set (list_keys en ids)
   \<and> (ids \<noteq> [] \<longrightarrow>
        get_master_keys (keyring_env ring s) ids
          = fingerprint ` {k \<in> set ring. \<exists>i \<in> set ids. key_matches i k})
   \<and> (ids \<noteq> [] \<and> filter (key_matches u) ring = [] \<longrightarrow>
        get_master_keys (keyring_env ring s) (ids @ [u]) = get_master_keys (keyring_env ring s) ids)"
proof -
  have sel: "list_keys (keyring_env ring s) = keyring_list_keys ring"
    by (simp add: keyring_env_def)
  have a: "get_master_keys en ids = fingerprint ` set (list_keys en ids)"
    by (simp add: get_master_keys_def)
  have b: "get_master_keys (keyring_env ring s) ids
          = fingerprint ` {k \<in> set ring. \<exists>i \<in> set ids. key_matches i k}" if "ids \<noteq> []" for ids
    using that by (simp add: get_master_keys_def sel keyring_list_keys_def list_ex_iff)
  have c: "get_master_keys (keyring_env ring s) (ids @ [u]) = get_master_keys (keyring_env ring s) ids"
    if "ids \<noteq> []" "filter (key_matches u) ring = []"
  proof -
    from that(2) have "\<forall>k \<in> set ring. \<not> key_matches u k" by (simp add: filter_empty_conv)
    then have "{k \<in> set ring. \<exists>i \<in> set (ids @ [u]). key_matches i k}
             = {k \<in> set ring. \<exists>i \<in> set ids. key_matches i k}" by auto
    with b [of "ids @ [u]"] b [OF that(1)] show ?thesis by simp
  qed
  from a b c show ?thesis by blast
qed

theorem get_master_keys_drops_unmatched_witness:
  "[''1A2B''] \<noteq> [] \<and> filter (key_matches ''FFFF'') demo_ring = []
   \<and> get_master_keys (keyring_env demo_ring True) ([''1A2B''] @ [''FFFF''])
       = get_master_keys (keyring_env demo_ring True) [''1A2B'']"
  using get_master_keys_drops_unmatched [of "keyring_env demo_ring True" "[''1A2B'']" demo_ring True "''FFFF''"]
  by (simp add: demo_ring_def key_matches_def)

text \<open>
  Claim C5 as stated fails: of the two ids the second matches no key of the
  keyring, and the result is the fingerprint for the first, not an error.
\<close>

theorem unmatched_id_is_dropped:
  "filter (key_matches ''FFFF'') demo_ring = []
   \<and> get_master_keys (keyring_env demo_ring True) [''1A2B'', ''FFFF''] = {''F1F1F1F1''}"
  by (simp add: get_master_keys_def keyring_env_def keyring_list_keys_def key_matches_def demo_ring_def)

section \<open>Properties of encrypt, decrypt and reconcile\<close>

lemma encrypted_keeps:
  "files (snd (encrypted s)) = files s"
  "path (obj (snd (encrypted s))) = path (obj s)"
  "keys (obj (snd (encrypted s))) = keys (obj s)"
  by (simp_all add: encrypted_def split: option.splits sum.splits)

lemma encrypted_result:
  "encrypted s = (Inr b, s1) \<Longrightarrow> cached (obj s1) = Some b"
  by (auto simp: encrypted_def split: option.splits sum.splits)

lemma encrypted_cached: "cached (obj s) = Some b \<Longrightarrow> encrypted s = (Inr b, s)"
  by (simp add: encrypted_def)

lemma encrypted_again: "encrypted s = (Inr b, s1) \<Longrightarrow> encrypted s1 = (Inr b, s1)"
  by (rule encrypted_cached) (rule encrypted_result)

lemma temp_removed:
  "tmp \<noteq> p \<Longrightarrow> os_remove tmp (fls(tmp \<mapsto> out)) p = fls p"
  "os_remove tmp (fls(tmp \<mapsto> out)) tmp = None"
  "tmp \<notin> dom fls \<Longrightarrow> os_remove tmp (fls(tmp \<mapsto> out)) = fls"
  by (auto simp: os_remove_def fun_eq_iff)

lemma temp_replaced:
  "tmp \<noteq> p \<Longrightarrow> os_replace tmp p (fls(tmp \<mapsto> out)) p = Some out"
  by (simp add: os_replace_def)

lemma decrypt_failure:
  assumes "files s (path (obj s)) = Some data" and "\<not> ok (decrypt_file en data)"
  shows "decrypt en s =
           (Inl (SecretError (path (obj s)) (status (decrypt_file en data))),
            s\<lparr>files := os_remove (mktemp en (files s) (path (obj s)))
                 (((files s)(mktemp en (files s) (path (obj s)) \<mapsto> []))
                    (mktemp en (files s) (path (obj s)) \<mapsto> written (decrypt_file en data)))\<rparr>)"
  using assms by (simp add: decrypt_def Let_def)

lemma encrypt_failure:
  assumes "encrypted s = (Inr False, s1)"
    and "files s (path (obj s)) = Some data" and "\<not> ok (encrypt_file en data (keys (obj s)))"
  shows "encrypt en s =
           (Inl (SecretError (path (obj s)) (status (encrypt_file en data (keys (obj s))))),
            s1\<lparr>files := os_remove (mktemp en (files s) (path (obj s)))
                 (((files s)(mktemp en (files s) (path (obj s)) \<mapsto> []))
                    (mktemp en (files s) (path (obj s)) \<mapsto> written (encrypt_file en data (keys (obj s)))))\<rparr>)"
proof -
  from assms(1) have k: "files s1 = files s" "path (obj s1) = path (obj s)" "keys (obj s1) = keys (obj s)"
    using encrypted_keeps [of s] by simp_all
  show ?thesis using assms by (simp add: encrypt_def Let_def k)
qed

lemma demo_state_sel:
  "files (demo_state ks) = [''db.env'' \<mapsto> [0x68, 0x69]]"
  "path (obj (demo_state ks)) = ''db.env''"
  "keys (obj (demo_state ks)) = ks"
  "cached (obj (demo_state ks)) = None"
  by (simp_all add: demo_state_def Secret_init_def)

lemma demo_state_plain: "encrypted (demo_state ks) = (Inr False, (demo_state ks)\<lparr>obj := (obj (demo_state ks))\<lparr>cached := Some False\<rparr>\<rparr>)"
  by (simp add: encrypted_def demo_state_sel detect_encryption_def check_header_def byte_at_def)

lemma keyring_env_sel:
  "encrypt_file (keyring_env ring sec) data rcp =
     (if rcp \<noteq> {} \<and> rcp \<subseteq> ring_ids ring \<and> selects_all rcp ring
      then \<lparr>ok = True, status = ''encryption ok'', written = packet_header @ data\<rparr>
      else \<lparr>ok = False, status = ''invalid recipient'', written = []\<rparr>)"
  "decrypt_file (keyring_env ring sec) data =
     (if sec \<and> take 3 data = packet_header
      then \<lparr>ok = True, status = ''decryption ok'', written = drop 3 data\<rparr>
      else \<lparr>ok = False, status = ''decryption failed'', written = []\<rparr>)"
  "list_packets_status (keyring_env ring sec) data =
     (if take 3 data = packet_header
      then map (\<lambda>k. (''ENC_TO'', first_id k @ '' 1 0'')) ring
      else [(''NODATA'', ''1'')])"
  "list_keys (keyring_env ring sec) = keyring_list_keys ring"
  "mktemp (keyring_env ring sec) fls prefix = prefix @ ''.tmp''"
  by (simp_all add: keyring_env_def)

lemma encrypt_success:
  assumes "encrypt en s = (Inr u, s1)"
  shows "cached (obj s1) = Some True"
  using assms encrypted_result [of s True "snd (encrypted s)"]
  by (auto simp: encrypt_def Let_def prod_eq_iff split: prod.splits sum.splits option.splits if_splits)

lemma decrypt_success:
  assumes "decrypt en s = (Inr u, s1)"
  shows "cached (obj s1) = Some False"
  using assms
  by (auto simp: decrypt_def Let_def split: option.splits if_splits)

lemma decrypt_cached:
  "cached (obj (snd (decrypt en s))) = (if fst (decrypt en s) = Inr () then Some False else cached (obj s))"
  by (auto simp: decrypt_def Let_def split: option.splits if_splits)

lemma encrypted_keeps_known:
  "cached (obj s) \<noteq> None \<Longrightarrow> cached (obj (snd (encrypted s))) \<noteq> None"
  by (auto simp: encrypted_def)

lemma encrypt_keeps_known:
  "cached (obj s) \<noteq> None \<Longrightarrow> cached (obj (snd (encrypt en s))) \<noteq> None"
  by (auto simp: encrypt_def encrypted_def Let_def split: option.splits if_splits)

lemma demo_encrypt:
  "encrypt (keyring_env demo_ring sec) (demo_state {''F1F1F1F1''}) =
     (Inr (), \<lparr>obj = \<lparr>path = ''db.env'', keys = {''F1F1F1F1''}, cached = Some True\<rparr>,
               files = os_replace ''db.env.tmp'' ''db.env''
                 [''db.env'' \<mapsto> [0x68, 0x69], ''db.env.tmp'' \<mapsto> packet_header @ [0x68, 0x69]]\<rparr>)"
  unfolding encrypt_def demo_state_plain
  by (simp add: keyring_env_sel Let_def ring_ids_def selects_all_def demo_ring_def
      Secret_init_def demo_state_def)

text \<open>
  Claim C3. When the engine reports failure, \<open>decrypt\<close> raises the \<open>SecretError\<close>
  for the path with the status text of the engine, the temporary file is
  removed, and the file at the path of the secret holds the bytes it held
  before; so does \<open>encrypt\<close>, which calls the engine for a secret that is not
  encrypted. The name of the temporary file differs from the path; when it is
  a new name, the whole file system is as before.
\<close>

theorem engine_failure_keeps_target:
  assumes "files s (path (obj s)) = Some data"
    and "mktemp en (files s) (path (obj s)) \<noteq> path (obj s)"
  shows "(\<not> ok (decrypt_file en data) \<longrightarrow>
            fst (decrypt en s) = Inl (SecretError (path (obj s)) (status (decrypt_file en data)))
          \<and> files (snd (decrypt en s)) (path (obj s)) = Some data
          \<and> files (snd (decrypt en s)) (mktemp en (files s) (path (obj s))) = None
          \<and> (mktemp en (files s) (path (obj s)) \<notin> dom (files s) \<longrightarrow> snd (decrypt en s) = s))
       \<and> (fst (encrypted s) = Inr False \<and> \<not> ok (encrypt_file en data (keys (obj s))) \<longrightarrow>
            fst (encrypt en s)
              = Inl (SecretError (path (obj s)) (status (encrypt_file en data (keys (obj s)))))
          \<and> files (snd (encrypt en s)) (path (obj s)) = Some data
          \<and> files (snd (encrypt en s)) (mktemp en (files s) (path (obj s))) = None
          \<and> (mktemp en (files s) (path (obj s)) \<notin> dom (files s) \<longrightarrow>
                files (snd (encrypt en s)) = files s))"
proof (intro conjI impI)
  assume f: "\<not> ok (decrypt_file en data)"
  note d = decrypt_failure [OF assms(1) f]
  show "fst (decrypt en s) = Inl (SecretError (path (obj s)) (status (decrypt_file en data)))"
    by (simp add: d)
  show "files (snd (decrypt en s)) (path (obj s)) = Some data"
    using assms by (simp add: d temp_removed)
  show "files (snd (decrypt en s)) (mktemp en (files s) (path (obj s))) = None"
    by (simp add: d temp_removed)
  show "snd (decrypt en s) = s" if "mktemp en (files s) (path (obj s)) \<notin> dom (files s)"
    using that by (simp add: d temp_removed)
next
  assume "fst (encrypted s) = Inr False \<and> \<not> ok (encrypt_file en data (keys (obj s)))"
  then have e: "encrypted s = (Inr False, snd (encrypted s))"
    and f: "\<not> ok (encrypt_file en data (keys (obj s)))"
    by (simp_all add: prod_eq_iff)
  note d = encrypt_failure [OF e assms(1) f]
  show "fst (encrypt en s)
          = Inl (SecretError (path (obj s)) (status (encrypt_file en data (keys (obj s)))))"
    by (simp add: d)
  show "files (snd (encrypt en s)) (path (obj s)) = Some data"
    using assms by (simp add: d temp_removed)
  show "files (snd (encrypt en s)) (mktemp en (files s) (path (obj s))) = None"
    by (simp add: d temp_removed)
  show "files (snd (encrypt en s)) = files s" if "mktemp en (files s) (path (obj s)) \<notin> dom (files s)"
    using that by (simp add: d temp_removed)
qed

theorem engine_failure_keeps_target_witness:
  "files (demo_state {}) (path (obj (demo_state {}))) = Some [0x68, 0x69]
   \<and> mktemp (keyring_env demo_ring False) (files (demo_state {})) (path (obj (demo_state {})))
        \<noteq> path (obj (demo_state {}))
   \<and> \<not> ok (decrypt_file (keyring_env demo_ring False) [0x68, 0x69])
   \<and> \<not> ok (encrypt_file (keyring_env demo_ring False) [0x68, 0x69] (keys (obj (demo_state {}))))
   \<and> fst (encrypted (demo_state {})) = Inr False
   \<and> decrypt (keyring_env demo_ring False) (demo_state {})
        = (Inl (SecretError ''db.env'' ''decryption failed''), demo_state {})
   \<and> fst (encrypt (keyring_env demo_ring False) (demo_state {}))
        = Inl (SecretError ''db.env'' ''invalid recipient'')
   \<and> files (snd (encrypt (keyring_env demo_ring False) (demo_state {}))) = files (demo_state {})"
proof -
  have a: "files (demo_state {}) (path (obj (demo_state {}))) = Some [0x68, 0x69]"
    by (simp add: demo_state_sel)
  have b: "mktemp (keyring_env demo_ring False) (files (demo_state {})) (path (obj (demo_state {})))
        \<noteq> path (obj (demo_state {}))"
    by (simp add: demo_state_sel keyring_env_sel)
  have c: "mktemp (keyring_env demo_ring False) (files (demo_state {})) (path (obj (demo_state {})))
        \<notin> dom (files (demo_state {}))"
    by (simp add: demo_state_sel keyring_env_sel)
  have d: "\<not> ok (decrypt_file (keyring_env demo_ring False) [0x68, 0x69])"
    by (simp add: keyring_env_sel)
  have e: "\<not> ok (encrypt_file (keyring_env demo_ring False) [0x68, 0x69] (keys (obj (demo_state {}))))"
    by (simp add: keyring_env_sel demo_state_sel)
  have f: "fst (encrypted (demo_state {})) = Inr False"
    by (simp add: demo_state_plain)
  from engine_failure_keeps_target [OF a b] c d e f
  have "fst (decrypt (keyring_env demo_ring False) (demo_state {}))
          = Inl (SecretError (path (obj (demo_state {})))
                   (status (decrypt_file (keyring_env demo_ring False) [0x68, 0x69])))"
    and "snd (decrypt (keyring_env demo_ring False) (demo_state {})) = demo_state {}"
    and "fst (encrypt (keyring_env demo_ring False) (demo_state {}))
          = Inl (SecretError (path (obj (demo_state {})))
                   (status (encrypt_file (keyring_env demo_ring False) [0x68, 0x69]
                      (keys (obj (demo_state {}))))))"
    and "files (snd (encrypt (keyring_env demo_ring False) (demo_state {}))) = files (demo_state {})"
    by blast+
  then show ?thesis using a b d e f
    by (simp add: prod_eq_iff keyring_env_sel demo_state_sel)
qed

text \<open>
  Claim C7, as amended. The flag is unknown, encrypted or plaintext. The first
  access of \<open>encrypted\<close> stores what the detection found, and an access with a
  known flag returns it and reads nothing. An \<open>encrypt\<close> that returns leaves the
  flag at encrypted, a \<open>decrypt\<close> that returns leaves it at plaintext, a \<open>decrypt\<close>
  that raises leaves it as it was: a known flag never goes back to unknown.
\<close>

theorem cached_flag_transitions:
  "(cached (obj s) = None \<and> detect_encryption (files s) (path (obj s)) = Inr b \<longrightarrow>
      encrypted s = (Inr b, s\<lparr>obj := (obj s)\<lparr>cached := Some b\<rparr>\<rparr>))
   \<and> (cached (obj s) = Some b \<longrightarrow> encrypted s = (Inr b, s))
   \<and> (fst (encrypt en s) = Inr () \<longrightarrow> cached (obj (snd (encrypt en s))) = Some True)
   \<and> (fst (decrypt en s) = Inr () \<longrightarrow> cached (obj (snd (decrypt en s))) = Some False)
   \<and> (fst (decrypt en s) \<noteq> Inr () \<longrightarrow> cached (obj (snd (decrypt en s))) = cached (obj s))
   \<and> (cached (obj s) \<noteq> None \<longrightarrow>
        cached (obj (snd (encrypt en s))) \<noteq> None \<and> cached (obj (snd (decrypt en s))) \<noteq> None)"
proof (intro conjI impI)
  show "encrypted s = (Inr b, s\<lparr>obj := (obj s)\<lparr>cached := Some b\<rparr>\<rparr>)"
    if "cached (obj s) = None \<and> detect_encryption (files s) (path (obj s)) = Inr b"
    using that by (simp add: encrypted_def)
  show "encrypted s = (Inr b, s)" if "cached (obj s) = Some b"
    using that by (rule encrypted_cached)
  show "cached (obj (snd (encrypt en s))) = Some True" if "fst (encrypt en s) = Inr ()"
    using that encrypt_success [of en s "()" "snd (encrypt en s)"] by (simp add: prod_eq_iff)
  show "cached (obj (snd (decrypt en s))) = Some False" if "fst (decrypt en s) = Inr ()"
    using that by (simp add: decrypt_cached)
  show "cached (obj (snd (decrypt en s))) = cached (obj s)" if "fst (decrypt en s) \<noteq> Inr ()"
    using that by (simp add: decrypt_cached)
  show "cached (obj (snd (encrypt en s))) \<noteq> None" if "cached (obj s) \<noteq> None"
    using that by (rule encrypt_keeps_known)
  show "cached (obj (snd (decrypt en s))) \<noteq> None" if "cached (obj s) \<noteq> None"
    using that by (auto simp: decrypt_cached)
qed

theorem cached_flag_transitions_witness:
  "cached (obj (demo_state {''F1F1F1F1''})) = None
   \<and> detect_encryption (files (demo_state {''F1F1F1F1''})) (path (obj (demo_state {''F1F1F1F1''})))
        = Inr False
   \<and> fst (encrypted (demo_state {''F1F1F1F1''})) = Inr False
   \<and> cached (obj (snd (encrypted (demo_state {''F1F1F1F1''})))) = Some False
   \<and> fst (encrypt (keyring_env demo_ring True) (demo_state {''F1F1F1F1''})) = Inr ()
   \<and> cached (obj (snd (encrypt (keyring_env demo_ring True) (demo_state {''F1F1F1F1''})))) = Some True"
proof -
  have a: "cached (obj (demo_state {''F1F1F1F1''})) = None" by (simp add: demo_state_sel)
  have b: "detect_encryption (files (demo_state {''F1F1F1F1''})) (path (obj (demo_state {''F1F1F1F1''})))
        = Inr False"
    by (simp add: demo_state_sel detect_encryption_def check_header_def byte_at_def)
  have c: "fst (encrypt (keyring_env demo_ring True) (demo_state {''F1F1F1F1''})) = Inr ()"
    by (simp add: demo_encrypt)
  from cached_flag_transitions [of "demo_state {''F1F1F1F1''}" False "keyring_env demo_ring True"] a b c
  show ?thesis by simp
qed

text \<open>
  Claim C7 as stated fails: after the \<open>encrypt\<close> call, the flag of a fresh
  secret is not unknown, it is set to encrypted.
\<close>

theorem flag_known_after_encrypt:
  "cached (obj (demo_state {''F1F1F1F1''})) = None
   \<and> fst (encrypt (keyring_env demo_ring True) (demo_state {''F1F1F1F1''})) = Inr ()
   \<and> cached (obj (snd (encrypt (keyring_env demo_ring True) (demo_state {''F1F1F1F1''})))) = Some True"
  by (simp add: demo_encrypt demo_state_sel)

section \<open>Properties of reconcile\<close>

lemma current_keys_known:
  assumes "cached (obj s) = Some True" and "files s (path (obj s)) = Some data"
  shows "current_keys en s =
           (Inr (get_master_keys en
                   (encrypted_to (read_response ListPackets_init (list_packets_status en data)))), s)"
  using assms by (simp add: current_keys_def encrypted_cached list_packets_def)

lemma current_keys_result:
  assumes "current_keys en s = (Inr cur, sa)"
  shows "\<exists>b. encrypted s = (Inr b, sa)"
  using assms
  by (auto simp: current_keys_def split: prod.splits sum.splits if_splits)

lemma current_keys_again:
  assumes "current_keys en s = (Inr cur, sa)"
  shows "current_keys en sa = (Inr cur, sa)"
proof -
  from current_keys_result [OF assms] obtain b where e: "encrypted s = (Inr b, sa)" ..
  then have e': "encrypted sa = (Inr b, sa)" by (rule encrypted_again)
  from assms show ?thesis
    by (simp add: current_keys_def e e')
qed

lemma update_keys_noop:
  assumes "current_keys en s = (Inr (keys (obj s)), s)"
  shows "update_keys en s = (Inr (), s)"
  using assms by (simp add: update_keys_def)

lemma encrypted_state:
  assumes "encrypted s = (Inr b, sa)"
  shows "files sa = files s" and "obj sa = (obj s)\<lparr>cached := Some b\<rparr>"
proof -
  show "files sa = files s" using assms encrypted_keeps(1) [of s] by simp
  show "obj sa = (obj s)\<lparr>cached := Some b\<rparr>"
  proof (cases "cached (obj s)")
    case None
    with assms show ?thesis
      by (auto simp: encrypted_def split: sum.splits)
  next
    case (Some c)
    with assms have "sa = s" and "c = b" by (simp_all add: encrypted_def)
    with Some show ?thesis by (cases "obj s") simp
  qed
qed

lemma replace_via_temp_target:
  "mktemp en fls p \<noteq> p \<Longrightarrow> replace_via_temp en fls p out p = Some out"
  by (simp add: replace_via_temp_def os_replace_def)

lemma encrypt_plain_exact:
  assumes "cached (obj sb) = Some False" and "encrypt en sb = (Inr u, s1)"
  shows "\<exists>data. files sb (path (obj sb)) = Some data
           \<and> ok (encrypt_file en data (keys (obj sb)))
           \<and> s1 = \<lparr>obj = (obj sb)\<lparr>cached := Some True\<rparr>,
                    files = replace_via_temp en (files sb) (path (obj sb))
                              (written (encrypt_file en data (keys (obj sb))))\<rparr>"
proof -
  from assms(1) have e: "encrypted sb = (Inr False, sb)" by (rule encrypted_cached)
  from assms(2) show ?thesis
    by (auto simp: encrypt_def e Let_def replace_via_temp_def split: option.splits if_splits)
qed

lemma decrypt_exact:
  assumes "decrypt en sa = (Inr u, s3)"
  shows "\<exists>c. files sa (path (obj sa)) = Some c
           \<and> ok (decrypt_file en c)
           \<and> s3 = \<lparr>obj = (obj sa)\<lparr>cached := Some False\<rparr>,
                    files = replace_via_temp en (files sa) (path (obj sa))
                              (written (decrypt_file en c))\<rparr>"
  using assms
  by (auto simp: decrypt_def Let_def replace_via_temp_def split: option.splits if_splits)

lemma demo_split: "str_split ''3C4D 1 0'' = [''3C4D'', ''1'', ''0'']"
  by (simp add: str_split_def is_space_def)

lemma demo_listing:
  "read_response ListPackets_init
     (list_packets_status (keyring_env demo_ring sec) (packet_header @ body))
     = ListPackets_init\<lparr>encrypted_to := [''3C4D'']\<rparr>"
proof -
  have "take 3 (packet_header @ body) = packet_header" by (simp add: packet_header_def)
  then show ?thesis
    by (simp add: keyring_env_sel demo_ring_def first_id_def handle_status_def demo_split
        ListPackets_init_def)
qed

lemma demo_canonical:
  "get_master_keys (keyring_env demo_ring sec) [''3C4D''] = {''F1F1F1F1''}"
  by (simp add: get_master_keys_def keyring_env_sel keyring_list_keys_def key_matches_def demo_ring_def)

lemma demo_recipient_ok:
  "ok (encrypt_file (keyring_env demo_ring sec) body {''F1F1F1F1''})"
  "ok (encrypt_file (keyring_env demo_ring sec) body {''1A2B''})"
  "written (encrypt_file (keyring_env demo_ring sec) body {''F1F1F1F1''}) = packet_header @ body"
  "written (encrypt_file (keyring_env demo_ring sec) body {''1A2B''}) = packet_header @ body"
  by (simp_all add: keyring_env_sel ring_ids_def selects_all_def demo_ring_def)

lemma demo_first_call:
  assumes "ks = {''F1F1F1F1''} \<or> ks = {''1A2B''}"
  shows "update_keys (keyring_env demo_ring sec) (demo_state ks) =
     (Inr (), \<lparr>obj = \<lparr>path = ''db.env'', keys = ks, cached = Some True\<rparr>,
               files = os_replace ''db.env.tmp'' ''db.env''
                 [''db.env'' \<mapsto> [0x68, 0x69], ''db.env.tmp'' \<mapsto> packet_header @ [0x68, 0x69]]\<rparr>)"
proof -
  let ?plain = "(demo_state ks)\<lparr>obj := (obj (demo_state ks))\<lparr>cached := Some False\<rparr>\<rparr>"
  have ck: "current_keys (keyring_env demo_ring sec) (demo_state ks) = (Inr {}, ?plain)"
    by (simp add: current_keys_def demo_state_plain)
  have e: "encrypted ?plain = (Inr False, ?plain)" by (simp add: encrypted_def)
  have ne: "{} \<noteq> keys (obj ?plain)" using assms by (auto simp: demo_state_sel)
  have enc: "encrypt (keyring_env demo_ring sec) ?plain =
     (Inr (), \<lparr>obj = \<lparr>path = ''db.env'', keys = ks, cached = Some True\<rparr>,
               files = os_replace ''db.env.tmp'' ''db.env''
                 [''db.env'' \<mapsto> [0x68, 0x69], ''db.env.tmp'' \<mapsto> packet_header @ [0x68, 0x69]]\<rparr>)"
    unfolding encrypt_def e using assms
    by (auto simp: demo_recipient_ok Let_def keyring_env_sel(5) demo_state_def Secret_init_def)
  show ?thesis
    unfolding update_keys_def ck using ne by (simp add: e enc)
qed

text \<open>
  Claim C2, as amended. Take an engine that reports, for whatever it encrypts to
  the required set, a packet listing whose key ids list as exactly the required
  set, and temporary names that differ from the path. If a call of
  \<open>update_keys\<close> returns, the next call returns too and changes nothing: neither
  a file nor the cached flag. The first call has made at most one encryption,
  and its result is one of three states. Either the current recipients were the
  required set, and nothing but the cached flag has changed. Or the file was
  not encrypted, and the path now holds the output of the one encryption of its
  content to the required set. Or the file was encrypted, and the path now
  holds the output of the one encryption, to the required set, of what the one
  decryption of its content gave.
\<close>

theorem update_keys_twice:
  assumes first: "update_keys en s = (Inr (), s1)"
    and temp: "\<forall>fls. mktemp en fls (path (obj s)) \<noteq> path (obj s)"
    and faithful: "\<forall>data. ok (encrypt_file en data (keys (obj s))) \<longrightarrow>
        get_master_keys en
          (encrypted_to (read_response ListPackets_init
             (list_packets_status en (written (encrypt_file en data (keys (obj s)))))))
        = keys (obj s)"
  shows "update_keys en s1 = (Inr (), s1)
       \<and> ((fst (current_keys en s) = Inr (keys (obj s)) \<and> s1 = snd (encrypted s))
          \<or> (\<exists>c. files s (path (obj s)) = Some c
                \<and> fst (encrypted s) = Inr False
                \<and> ok (encrypt_file en c (keys (obj s)))
                \<and> s1 = \<lparr>obj = (obj s)\<lparr>cached := Some True\<rparr>,
                         files = replace_via_temp en (files s) (path (obj s))
                                   (written (encrypt_file en c (keys (obj s))))\<rparr>)
          \<or> (\<exists>c. files s (path (obj s)) = Some c
                \<and> fst (encrypted s) = Inr True
                \<and> ok (decrypt_file en c)
                \<and> ok (encrypt_file en (written (decrypt_file en c)) (keys (obj s)))
                \<and> s1 = \<lparr>obj = (obj s)\<lparr>cached := Some True\<rparr>,
                         files = replace_via_temp en
                                   (replace_via_temp en (files s) (path (obj s))
                                      (written (decrypt_file en c)))
                                   (path (obj s))
                                   (written (encrypt_file en (written (decrypt_file en c))
                                      (keys (obj s))))\<rparr>))"
proof -
  let ?p = "path (obj s)" and ?K = "keys (obj s)"
  obtain r sa where ck: "current_keys en s = (r, sa)" by force
  with first obtain cur where r: "r = Inr cur"
    by (cases r) (simp_all add: update_keys_def)
  from ck r have cks: "current_keys en s = (Inr cur, sa)" by simp
  from current_keys_result [OF cks] obtain b where e: "encrypted s = (Inr b, sa)" ..
  note sa = encrypted_state [OF e]
  have sa_sel: "path (obj sa) = ?p" "keys (obj sa) = ?K" "cached (obj sa) = Some b"
    by (simp_all add: sa)
  have e': "encrypted sa = (Inr b, sa)" using e by (rule encrypted_again)
  show ?thesis
  proof (cases "cur = ?K")
    case True
    with first cks sa_sel have s1: "s1 = sa" by (simp add: update_keys_def)
    from current_keys_again [OF cks] True sa_sel
    have "current_keys en sa = (Inr (keys (obj sa)), sa)" by simp
    then have "update_keys en sa = (Inr (), sa)" by (rule update_keys_noop)
    moreover have "fst (current_keys en s) = Inr ?K" using cks True by simp
    moreover have "sa = snd (encrypted s)" using e by simp
    ultimately show ?thesis using s1 by blast
  next
    case False
    then have ne: "cur \<noteq> keys (obj sa)" by (simp add: sa_sel)
    have step: "\<exists>c. files s ?p = Some c \<and>
       ((\<not> b \<and> ok (encrypt_file en c ?K)
         \<and> s1 = \<lparr>obj = (obj s)\<lparr>cached := Some True\<rparr>,
                  files = replace_via_temp en (files s) ?p (written (encrypt_file en c ?K))\<rparr>)
        \<or> (b \<and> ok (decrypt_file en c) \<and> ok (encrypt_file en (written (decrypt_file en c)) ?K)
         \<and> s1 = \<lparr>obj = (obj s)\<lparr>cached := Some True\<rparr>,
                  files = replace_via_temp en
                            (replace_via_temp en (files s) ?p (written (decrypt_file en c))) ?p
                            (written (encrypt_file en (written (decrypt_file en c)) ?K))\<rparr>))"
    proof (cases b)
      case True
      obtain r3 s3 where d: "decrypt en sa = (r3, s3)" by force
      from first cks ne e' True d have r3: "r3 = Inr ()" and enc: "encrypt en s3 = (Inr (), s1)"
        by (cases r3; simp add: update_keys_def)+
      from d r3 have "decrypt en sa = (Inr (), s3)" by simp
      from decrypt_exact [OF this] obtain c where
        c: "files s ?p = Some c" and okd: "ok (decrypt_file en c)"
        and s3: "s3 = \<lparr>obj = (obj sa)\<lparr>cached := Some False\<rparr>,
                    files = replace_via_temp en (files s) ?p (written (decrypt_file en c))\<rparr>"
        by (auto simp: sa sa_sel)
      have k3: "cached (obj s3) = Some False" "path (obj s3) = ?p" "keys (obj s3) = ?K"
        by (simp_all add: s3 sa)
      from temp have "mktemp en (files s) ?p \<noteq> ?p" by simp
      then have f3: "files s3 ?p = Some (written (decrypt_file en c))"
        unfolding s3 by (simp add: replace_via_temp_target)
      from encrypt_plain_exact [OF k3(1) enc] f3 have
        "ok (encrypt_file en (written (decrypt_file en c)) ?K)"
        and "s1 = \<lparr>obj = (obj s3)\<lparr>cached := Some True\<rparr>,
                   files = replace_via_temp en (files s3) ?p
                             (written (encrypt_file en (written (decrypt_file en c)) ?K))\<rparr>"
        by (auto simp: k3)
      with c okd True show ?thesis by (simp add: s3 sa)
    next
      case False
      with first cks ne e' have enc: "encrypt en sa = (Inr (), s1)"
        by (simp add: update_keys_def)
      from False sa_sel have "cached (obj sa) = Some False" by simp
      from encrypt_plain_exact [OF this enc] obtain c where
        "files s ?p = Some c" "ok (encrypt_file en c ?K)"
        "s1 = \<lparr>obj = (obj sa)\<lparr>cached := Some True\<rparr>,
               files = replace_via_temp en (files s) ?p (written (encrypt_file en c ?K))\<rparr>"
        by (auto simp: sa sa_sel)
      with False show ?thesis by (simp add: sa)
    qed
    then obtain c out where c: "files s ?p = Some c"
      and out: "ok (encrypt_file en out ?K)"
      and s1: "obj s1 = (obj s)\<lparr>cached := Some True\<rparr>"
              "\<exists>fls. files s1 = replace_via_temp en fls ?p (written (encrypt_file en out ?K))"
      by (elim exE conjE disjE) (simp; blast)+
    from s1(2) obtain fls where
      f1: "files s1 = replace_via_temp en fls ?p (written (encrypt_file en out ?K))" ..
    from temp have "mktemp en fls ?p \<noteq> ?p" by simp
    then have target: "files s1 ?p = Some (written (encrypt_file en out ?K))"
      unfolding f1 by (rule replace_via_temp_target)
    have k1: "cached (obj s1) = Some True" "path (obj s1) = ?p" "keys (obj s1) = ?K"
      by (simp_all add: s1(1))
    from target have "files s1 (path (obj s1)) = Some (written (encrypt_file en out ?K))"
      by (simp add: k1)
    from current_keys_known [OF k1(1) this, of en] faithful out k1(3)
    have "current_keys en s1 = (Inr (keys (obj s1)), s1)" by simp
    then have again: "update_keys en s1 = (Inr (), s1)" by (rule update_keys_noop)
    have b: "fst (encrypted s) = Inr b" using e by simp
    from step b again show ?thesis by (cases b) auto
  qed
qed

theorem update_keys_twice_witness:
  "fst (update_keys (keyring_env demo_ring False) (demo_state {''F1F1F1F1''})) = Inr ()
   \<and> files (snd (update_keys (keyring_env demo_ring False) (demo_state {''F1F1F1F1''}))) ''db.env''
        = Some (packet_header @ [0x68, 0x69])
   \<and> update_keys (keyring_env demo_ring False)
        (snd (update_keys (keyring_env demo_ring False) (demo_state {''F1F1F1F1''})))
      = (Inr (), snd (update_keys (keyring_env demo_ring False) (demo_state {''F1F1F1F1''})))"
proof -
  let ?en = "keyring_env demo_ring False"
  let ?s = "demo_state {''F1F1F1F1''}"
  have a: "fst (update_keys ?en ?s) = Inr ()" by (simp add: demo_first_call)
  have b: "files (snd (update_keys ?en ?s)) ''db.env'' = Some (packet_header @ [0x68, 0x69])"
    by (simp add: demo_first_call os_replace_def)
  from a have first: "update_keys ?en ?s = (Inr (), snd (update_keys ?en ?s))"
    by (simp add: prod_eq_iff)
  have temp: "\<forall>fls. mktemp ?en fls (path (obj ?s)) \<noteq> path (obj ?s)"
    by (simp add: keyring_env_sel demo_state_sel)
  have faithful: "\<forall>data. ok (encrypt_file ?en data (keys (obj ?s))) \<longrightarrow>
        get_master_keys ?en
          (encrypted_to (read_response ListPackets_init
             (list_packets_status ?en (written (encrypt_file ?en data (keys (obj ?s)))))))
        = keys (obj ?s)"
    by (simp add: demo_state_sel demo_recipient_ok demo_listing demo_canonical)
  from update_keys_twice [OF first temp faithful] a b show ?thesis by blast
qed

text \<open>
  Claim C2 as stated fails for a required set that is not in the form the engine
  lists keys in. The secret requires the key id \<open>1A2B\<close>; the first call encrypts
  the file, the second call finds the fingerprint \<open>F1F1F1F1\<close> as the current
  recipient, takes the sets to differ and starts to decrypt, which fails here
  for lack of the secret key.
\<close>

theorem second_call_not_noop:
  "fst (update_keys (keyring_env demo_ring False) (demo_state {''1A2B''})) = Inr ()
   \<and> fst (update_keys (keyring_env demo_ring False)
        (snd (update_keys (keyring_env demo_ring False) (demo_state {''1A2B''}))))
      = Inl (SecretError ''db.env'' ''decryption failed'')"
proof -
  let ?en = "keyring_env demo_ring False"
  let ?s1 = "\<lparr>obj = \<lparr>path = ''db.env'', keys = {''1A2B''}, cached = Some True\<rparr>,
               files = os_replace ''db.env.tmp'' ''db.env''
                 [''db.env'' \<mapsto> [0x68, 0x69], ''db.env.tmp'' \<mapsto> packet_header @ [0x68, 0x69]]\<rparr>"
  have first: "update_keys ?en (demo_state {''1A2B''}) = (Inr (), ?s1)"
    by (simp add: demo_first_call)
  have target: "files ?s1 (path (obj ?s1)) = Some (packet_header @ [0x68, 0x69])"
    by (simp add: os_replace_def)
  have ck: "current_keys ?en ?s1 = (Inr {''F1F1F1F1''}, ?s1)"
    using current_keys_known [of ?s1 "packet_header @ [0x68, 0x69]" ?en, OF _ target]
    by (simp add: demo_listing demo_canonical)
  have e: "encrypted ?s1 = (Inr True, ?s1)" by (simp add: encrypted_def)
  have d: "fst (decrypt ?en ?s1) = Inl (SecretError ''db.env'' ''decryption failed'')"
    using target by (simp add: decrypt_def Let_def keyring_env_sel)
  have "fst (update_keys ?en ?s1) = Inl (SecretError ''db.env'' ''decryption failed'')"
    unfolding update_keys_def ck using d
    by (auto simp: e split: prod.splits sum.splits)
  with first show ?thesis by simp
qed

section \<open>Properties of the Key Generator\<close>

lemma generate_no_key:
  assumes "fst (gen_key ge (snd w) (key_input ge kg name)) = None
         \<or> fst (gen_key ge (snd w) (key_input ge kg name)) = Some []"
  shows "generate ge kg name key_path w =
           (Inl (SecretKeyError ''Failed to generate key: ''), fst w,
            snd (gen_key ge (snd w) (key_input ge kg name)))"
  using assms by (auto simp: generate_def Let_def split: prod.splits option.splits)

text \<open>
  Claim C8, as amended. The request has the empty passphrase behind the
  \<open>%no-protection\<close> line, the name as given, and the e-mail address made of the
  name in lower case, \<open>@\<close> and the configured domain, which is \<open>name@domain\<close> for
  a name that its lower case leaves as it is. When the engine reports no key,
  \<open>generate\<close> raises \<open>SecretKeyError\<close> and writes no file.
\<close>

theorem generate_request:
  "passphrase (gen_key_args_of kg name) = []
   \<and> name_real (gen_key_args_of kg name) = name
   \<and> name_email (gen_key_args_of kg name) = str_lower name @ ''@'' @ domain kg
   \<and> (str_lower name = name \<longrightarrow> name_email (gen_key_args_of kg name) = name @ ''@'' @ domain kg)
   \<and> key_input ge kg name
        = ''%no-protection'' @ [CHR 0x0A] @ gen_key_input ge (gen_key_args_of kg name)
   \<and> (fst (gen_key ge (snd w) (key_input ge kg name)) = None
        \<or> fst (gen_key ge (snd w) (key_input ge kg name)) = Some [] \<longrightarrow>
        fst (generate ge kg name key_path w) = Inl (SecretKeyError ''Failed to generate key: '')
        \<and> fst (snd (generate ge kg name key_path w)) = fst w)"
  by (simp add: gen_key_args_of_def key_input_def generate_no_key)

theorem generate_request_witness:
  "str_lower ''web1'' = ''web1''
   \<and> name_email (gen_key_args_of \<lparr>key_type = ''RSA'', key_length = 4096, domain = ''example.org''\<rparr> ''web1'')
        = ''web1@example.org''
   \<and> name_email (gen_key_args_of \<lparr>key_type = ''RSA'', key_length = 4096, domain = ''example.org''\<rparr>
        [CHR 0xC9, CHR ''v'', CHR ''e''])
        = [CHR 0xE9, CHR ''v'', CHR ''e''] @ ''@example.org''
   \<and> fst (gen_key failing_keygen ()
        (key_input failing_keygen \<lparr>key_type = ''RSA'', key_length = 4096, domain = ''example.org''\<rparr> ''web1''))
        = None
   \<and> fst (generate failing_keygen \<lparr>key_type = ''RSA'', key_length = 4096, domain = ''example.org''\<rparr>
        ''web1'' None (Map.empty, ())) = Inl (SecretKeyError ''Failed to generate key: '')"
proof -
  let ?kg = "\<lparr>key_type = ''RSA'', key_length = 4096, domain = ''example.org''\<rparr>"
  have l: "str_lower ''web1'' = ''web1''" by code_simp
  have u: "str_lower [CHR 0xC9, CHR ''v'', CHR ''e''] = [CHR 0xE9, CHR ''v'', CHR ''e'']"
    by code_simp
  have n: "fst (gen_key failing_keygen (snd (Map.empty :: fs, ()))
        (key_input failing_keygen ?kg ''web1'')) = None"
    by (simp add: failing_keygen_def)
  from generate_request [of ?kg "''web1''" failing_keygen "(Map.empty, ())" None]
    generate_request [of ?kg "[CHR 0xC9, CHR ''v'', CHR ''e'']" failing_keygen "(Map.empty, ())" None]
    l u n
  show ?thesis by simp
qed

text \<open>
  Claim C8 as stated fails for a name with a capital letter: the address for
  \<open>Alice\<close> is \<open>alice@example.org\<close>.
\<close>

theorem email_is_lower_cased:
  "name_email (gen_key_args_of \<lparr>key_type = ''RSA'', key_length = 4096, domain = ''example.org''\<rparr> ''Alice'')
     = ''alice@example.org''
   \<and> ''Alice'' @ ''@'' @ ''example.org'' \<noteq> ''alice@example.org''"
proof -
  have "str_lower ''Alice'' = ''alice''" by code_simp
  then show ?thesis by (simp add: gen_key_args_of_def)
qed

end
